theory Spec2Isabelle
  imports Complex_Main
begin

section \<open>Data model of \<^verbatim>\<open>src/app.ts\<close>\<close>

text \<open>
  \<^verbatim>\<open>enum ProjectStatus { Active, Finished }\<close>
\<close>

datatype ProjectStatus = Active | Finished

text \<open>
  A JavaScript \<^verbatim>\<open>number\<close>. Every finite double is a rational, and the comparisons
  \<^verbatim>\<open><=\<close> and \<^verbatim>\<open>>=\<close> of the language agree with the order of the rationals on finite
  values, are decided by the sign for the infinities and are false as soon as one side is
  \<^verbatim>\<open>NaN\<close>. Negative zero is identified with zero (they compare equal).
\<close>

datatype number = NaN | NegInfinity | Finite rat | Infinity

fun num_le :: "number \<Rightarrow> number \<Rightarrow> bool" where
  "num_le NaN b = False"
| "num_le a NaN = False"
| "num_le NegInfinity b = True"
| "num_le a Infinity = True"
| "num_le (Finite a) (Finite b) = (a \<le> b)"
| "num_le a b = False"

text \<open>\<^verbatim>\<open>Number.isInteger\<close>: used to state properties only, the program never calls it.\<close>

fun isInteger :: "number \<Rightarrow> bool" where
  "isInteger (Finite q) = (of_int \<lfloor>q\<rfloor> = q)"
| "isInteger n = False"

text \<open>
  \<^verbatim>\<open>class Project { constructor(public id: string, public title: string,
      public description: string, public people: number, public status: ProjectStatus) {} }\<close>
  The field \<^verbatim>\<open>id\<close> is called \<open>id_prj\<close> here, \<open>id\<close> being the identity function of HOL.
\<close>

record Project =
  id_prj :: string
  title :: string
  description :: string
  people :: number
  status :: ProjectStatus

text \<open>
  \<^verbatim>\<open>type Listener = (items: Project[]) => void\<close>.
  A listener acts on whatever lives outside the registry (the views, the page): that outside
  is the type parameter \<open>'w\<close>, and a listener maps the snapshot it is handed and the outside
  before the call to the outside after it. Listeners are taken to return normally, to leave
  the \<^verbatim>\<open>Project\<close> objects of the snapshot alone and not to call back into the registry, as the
  one listener of the program (in \<^verbatim>\<open>ProjectList.configure\<close>) does.
\<close>

type_synonym 'w Listener = "Project list \<Rightarrow> 'w \<Rightarrow> 'w"

text \<open>
  \<^verbatim>\<open>class ProjectState { private projects: Project[] = []; private listeners: Listener[] = []; ... }\<close>
  The class is a singleton (\<^verbatim>\<open>getInstance\<close>): the one instance is the state that is passed along.
\<close>

record 'w ProjectState =
  projects :: "Project list"
  listeners :: "'w Listener list"

definition getInstance :: "'w ProjectState" where
  "getInstance = \<lparr>projects = [], listeners = []\<rparr>"

section \<open>The registry: \<^verbatim>\<open>ProjectState\<close>\<close>

text \<open>\<^verbatim>\<open>addListener(listenerFn) { this.listeners.push(listenerFn); }\<close>\<close>

definition addListener :: "'w Listener \<Rightarrow> 'w ProjectState \<Rightarrow> 'w ProjectState" where
  "addListener listenerFn st = st\<lparr>listeners := listeners st @ [listenerFn]\<rparr>"

text \<open>
  \<^verbatim>\<open>private updateListeners() {
    for (const listenerFn of this.listeners) { listenerFn(this.projects.slice()); } }\<close>
\<close>

definition updateListeners :: "'w ProjectState \<Rightarrow> 'w \<Rightarrow> 'w" where
  "updateListeners st w = fold (\<lambda>listenerFn. listenerFn (projects st)) (listeners st) w"

text \<open>
  \<^verbatim>\<open>addProject(title, description, numOfPeople) {
    const newProject = new Project(Math.random().toString(), title, description,
                                   numOfPeople, ProjectStatus.Active);
    this.projects.push(newProject);
    this.updateListeners(); }\<close>
  The first argument \<open>rnd\<close> is the string \<^verbatim>\<open>Math.random().toString()\<close> that this call draws:
  the generator is outside the program, so its result is an input of the model.
\<close>

definition addProject ::
  "string \<Rightarrow> string \<Rightarrow> string \<Rightarrow> number \<Rightarrow> 'w ProjectState \<times> 'w \<Rightarrow> 'w ProjectState \<times> 'w" where
  "addProject rnd title' description' numOfPeople s =
     (case s of (st, w) \<Rightarrow>
        let newProject = \<lparr>id_prj = rnd, title = title', description = description',
                          people = numOfPeople, status = Active\<rparr>;
            st' = st\<lparr>projects := projects st @ [newProject]\<rparr>
        in (st', updateListeners st' w))"

text \<open>
  The position of the first element that satisfies \<open>P\<close> (the length of the list when there is
  none): where \<^verbatim>\<open>Array.prototype.find\<close> stops.
\<close>

definition findPos :: "('a \<Rightarrow> bool) \<Rightarrow> 'a list \<Rightarrow> nat" where
  "findPos P xs = length (takeWhile (\<lambda>x. \<not> P x) xs)"

text \<open>
  \<^verbatim>\<open>moveProject(projectId, newStatus) {
    const project = this.projects.find(prj => prj.id === projectId);
    if (project && project.status !== newStatus) {
      project.status = newStatus;
      this.updateListeners(); } }\<close>
  \<^verbatim>\<open>find\<close> returns the first matching object of the array, and the assignment changes that
  object where it sits in the array.
\<close>

definition moveProject ::
  "string \<Rightarrow> ProjectStatus \<Rightarrow> 'w ProjectState \<times> 'w \<Rightarrow> 'w ProjectState \<times> 'w" where
  "moveProject projectId newStatus s =
     (case s of (st, w) \<Rightarrow>
        (case find (\<lambda>prj. id_prj prj = projectId) (projects st) of
           None \<Rightarrow> (st, w)
         | Some project \<Rightarrow>
             if status project \<noteq> newStatus then
               let st' = st\<lparr>projects :=
                     (projects st)[findPos (\<lambda>prj. id_prj prj = projectId) (projects st) :=
                                     project\<lparr>status := newStatus\<rparr>]\<rparr>
               in (st', updateListeners st' w)
             else (st, w)))"

text \<open>A call of one of the two mutating operations, and a sequence of such calls.\<close>

datatype Call =
  AddProject string string string number
| MoveProject string ProjectStatus

fun call :: "Call \<Rightarrow> 'w ProjectState \<times> 'w \<Rightarrow> 'w ProjectState \<times> 'w" where
  "call (AddProject rnd t d n) s = addProject rnd t d n s"
| "call (MoveProject i newStatus) s = moveProject i newStatus s"

definition run :: "Call list \<Rightarrow> 'w ProjectState \<times> 'w \<Rightarrow> 'w ProjectState \<times> 'w" where
  "run calls s = fold call calls s"

text \<open>The strings drawn from \<^verbatim>\<open>Math.random\<close> by a sequence of calls, in the order drawn.\<close>

fun drawn :: "Call list \<Rightarrow> string list" where
  "drawn [] = []"
| "drawn (AddProject rnd t d n # cs) = rnd # drawn cs"
| "drawn (MoveProject i newStatus # cs) = drawn cs"

text \<open>The project that \<^verbatim>\<open>addProject\<close> builds from its arguments and the string it draws.\<close>

fun built :: "string \<times> string \<times> string \<times> number \<Rightarrow> Project" where
  "built (rnd, t, d, n) =
     \<lparr>id_prj = rnd, title = t, description = d, people = n, status = Active\<rparr>"

definition addAll ::
  "(string \<times> string \<times> string \<times> number) list \<Rightarrow> 'w ProjectState \<times> 'w \<Rightarrow> 'w ProjectState \<times> 'w" where
  "addAll args s = fold (\<lambda>(rnd, t, d, n). addProject rnd t d n) args s"

text \<open>
  A listener that records each of its invocations: its own name and the snapshot it was
  handed, appended to a log. It is the observer with which the fan-out is stated.
\<close>

definition recorder :: "'i \<Rightarrow> ('i \<times> Project list) list Listener" where
  "recorder i items trace = trace @ [(i, items)]"

section \<open>The views: \<^verbatim>\<open>ProjectList\<close>\<close>

text \<open>
  \<^verbatim>\<open>constructor(private type: 'active' | 'finished')\<close>; the outside of the registry is then
  the field \<^verbatim>\<open>assignedProjects\<close> of each list (what \<^verbatim>\<open>renderProjects\<close> draws from).
\<close>

datatype ListType = active | finished

type_synonym Views = "ListType \<Rightarrow> Project list"

text \<open>
  \<^verbatim>\<open>projects.filter(pr => { if (this.type === 'active') { return pr.status === ProjectStatus.Active; }
                              return pr.status === ProjectStatus.Finished; })\<close>
\<close>

definition relevant :: "ListType \<Rightarrow> Project \<Rightarrow> bool" where
  "relevant ty pr = (if ty = active then status pr = Active else status pr = Finished)"

definition relevantProjects :: "ListType \<Rightarrow> Project list \<Rightarrow> Project list" where
  "relevantProjects ty prjs = filter (relevant ty) prjs"

text \<open>
  The list that shows the projects of a status: \<^verbatim>\<open>'active'\<close> filters on \<^verbatim>\<open>ProjectStatus.Active\<close>,
  \<^verbatim>\<open>'finished'\<close> on \<^verbatim>\<open>ProjectStatus.Finished\<close>.
\<close>

fun showing :: "ProjectStatus \<Rightarrow> ListType" where
  "showing Active = active"
| "showing Finished = finished"

text \<open>
  The listener of \<^verbatim>\<open>ProjectList.configure\<close>:
  \<^verbatim>\<open>this.assignedProjects = relevantProjects; this.renderProjects();\<close>
  (the rendering writes to the page only).
\<close>

definition listListener :: "ListType \<Rightarrow> Views Listener" where
  "listListener ty prjs v = v(ty := relevantProjects ty prjs)"

text \<open>
  \<^verbatim>\<open>const aPL = new ProjectList('active'); const fPL = new ProjectList('finished');\<close>
  on the fresh registry: both lists subscribe, and both start with no assigned project.
\<close>

definition startup :: "Views ProjectState \<times> Views" where
  "startup = (addListener (listListener finished) (addListener (listListener active) getInstance),
              \<lambda>ty. [])"

section \<open>The form: \<^verbatim>\<open>validate\<close> and \<^verbatim>\<open>ProjectInput\<close>\<close>

text \<open>
  A string of the program is a \<^typ>\<open>string\<close> here, one \<^typ>\<open>char\<close> for each code unit (so
  \<^verbatim>\<open>.length\<close> is \<^const>\<open>length\<close>), for the code units below 256.
  \<^verbatim>\<open>String.prototype.trim\<close> removes white space and line terminators at both ends: tab, line
  feed, vertical tab, form feed, carriage return, space and no-break space in that range.
\<close>

definition isWhiteSpace :: "char \<Rightarrow> bool" where
  "isWhiteSpace c = (c \<in> set [CHR 0x09, CHR 0x0A, CHR 0x0B, CHR 0x0C, CHR 0x0D, CHR 0x20, CHR 0xA0])"

definition trim :: "string \<Rightarrow> string" where
  "trim s = rev (dropWhile isWhiteSpace (rev (dropWhile isWhiteSpace s)))"

text \<open>
  \<^verbatim>\<open>interface Validatable { value: string | number; required?: boolean; minLength?: number;
      maxLength?: number; min?: number; max?: number; }\<close>
  An optional field that is absent is \<open>None\<close>. The fields \<^verbatim>\<open>value\<close>, \<^verbatim>\<open>min\<close> and \<^verbatim>\<open>max\<close> carry
  the suffix \<open>_v\<close>.
\<close>

datatype jsvalue = StringValue string | NumberValue number

record Validatable =
  value_v :: jsvalue
  required :: "bool option"
  minLength :: "number option"
  maxLength :: "number option"
  min_v :: "number option"
  max_v :: "number option"

text \<open>
  \<^verbatim>\<open>value.toString().trim().length !== 0\<close>. The text of a number (\<^verbatim>\<open>"NaN"\<close>, \<^verbatim>\<open>"Infinity"\<close>,
  \<^verbatim>\<open>"2.5"\<close>, ...) is never empty and has no white space.
\<close>

fun notBlank :: "jsvalue \<Rightarrow> bool" where
  "notBlank (StringValue s) = (length (trim s) \<noteq> 0)"
| "notBlank (NumberValue n) = True"

text \<open>\<^verbatim>\<open>value.length\<close> as a number.\<close>

definition lengthNumber :: "string \<Rightarrow> number" where
  "lengthNumber s = Finite (of_nat (length s))"

text \<open>
  \<^verbatim>\<open>function validate(validatableInput: Validatable)\<close>: the five tests in the order of the source,
  each one guarded as there (\<^verbatim>\<open>!= null\<close> and \<^verbatim>\<open>typeof\<close>).
\<close>

definition validate :: "Validatable \<Rightarrow> bool" where
  "validate validatableInput =
     (let isValid = True;
          isValid = (if required validatableInput = Some True
                     then isValid \<and> notBlank (value_v validatableInput) else isValid);
          isValid = (case (minLength validatableInput, value_v validatableInput) of
                       (Some m, StringValue s) \<Rightarrow> isValid \<and> num_le m (lengthNumber s)
                     | _ \<Rightarrow> isValid);
          isValid = (case (maxLength validatableInput, value_v validatableInput) of
                       (Some m, StringValue s) \<Rightarrow> isValid \<and> num_le (lengthNumber s) m
                     | _ \<Rightarrow> isValid);
          isValid = (case (min_v validatableInput, value_v validatableInput) of
                       (Some m, NumberValue n) \<Rightarrow> isValid \<and> num_le m n
                     | _ \<Rightarrow> isValid);
          isValid = (case (max_v validatableInput, value_v validatableInput) of
                       (Some m, NumberValue n) \<Rightarrow> isValid \<and> num_le n m
                     | _ \<Rightarrow> isValid)
      in isValid)"

text \<open>The three input elements of the form, each by its \<^verbatim>\<open>value\<close>.\<close>

record Form =
  titleInputElem :: string
  descriptionElem :: string
  peopleInputElem :: string

text \<open>
  \<^verbatim>\<open>private gatherUserInput(): [string, string, number] | void\<close>. The conversion \<^verbatim>\<open>+enteredPeople\<close>
  of a string to a number is the language's, and is the parameter \<open>toNumber\<close>. The branch that
  alerts and returns nothing is \<open>Inl\<close> of the notice; the other is \<open>Inr\<close> of the triple.
\<close>

definition gatherUserInput :: "(string \<Rightarrow> number) \<Rightarrow> Form \<Rightarrow> string + string \<times> string \<times> number" where
  "gatherUserInput toNumber f =
     (let enteredTitle = trim (titleInputElem f);
          enteredDescription = trim (descriptionElem f);
          enteredPeople = trim (peopleInputElem f);
          titleValidateable = \<lparr>value_v = StringValue enteredTitle, required = Some True,
             minLength = None, maxLength = None, min_v = None, max_v = None\<rparr>;
          descriptionValidateable = \<lparr>value_v = StringValue enteredDescription, required = Some True,
             minLength = Some (Finite 5), maxLength = None, min_v = None, max_v = None\<rparr>;
          peopleValidateable = \<lparr>value_v = NumberValue (toNumber enteredPeople), required = Some True,
             minLength = None, maxLength = None, min_v = Some (Finite 1), max_v = Some (Finite 5)\<rparr>
      in if \<not> validate titleValidateable \<or> \<not> validate descriptionValidateable
              \<or> \<not> validate peopleValidateable
         then Inl ''Invalid input, please try again!''
         else Inr (enteredTitle, enteredDescription, toNumber enteredPeople))"

text \<open>\<^verbatim>\<open>private clearInput()\<close>\<close>

definition clearInput :: "Form \<Rightarrow> Form" where
  "clearInput f = f\<lparr>descriptionElem := [], peopleInputElem := [], titleInputElem := []\<rparr>"

text \<open>
  The page as the submit handler sees it: the form, the registry with its outside, and the
  notices shown by \<^verbatim>\<open>alert\<close> so far.
\<close>

record 'w Page =
  form :: Form
  registry :: "'w ProjectState \<times> 'w"
  alerts :: "string list"

text \<open>
  The handler of \<^verbatim>\<open>ProjectInput.configure\<close>:
  \<^verbatim>\<open>const userInput = this.gatherUserInput();
   if (Array.isArray(userInput)) { const [title, desc, people] = userInput;
     projectState.addProject(title, desc, people); this.clearInput(); }\<close>
  with \<open>rnd\<close> the string that \<^verbatim>\<open>addProject\<close> draws when it is called.
\<close>

definition submit :: "(string \<Rightarrow> number) \<Rightarrow> string \<Rightarrow> 'w Page \<Rightarrow> 'w Page" where
  "submit toNumber rnd pg =
     (case gatherUserInput toNumber (form pg) of
        Inl notice \<Rightarrow> pg\<lparr>alerts := alerts pg @ [notice]\<rparr>
      | Inr (title', desc, people') \<Rightarrow>
          pg\<lparr>registry := addProject rnd title' desc people' (registry pg),
             form := clearInput (form pg)\<rparr>)"

text \<open>
  The conversion of a string to a number on signed decimal literals with an optional
  fraction (\<^verbatim>\<open>"3"\<close>, \<^verbatim>\<open>"-1"\<close>, \<^verbatim>\<open>"2.5"\<close>, \<^verbatim>\<open>".5"\<close>) and on the empty string, which converts to
  zero. It agrees with \<^verbatim>\<open>+s\<close> on such strings when their decimal value is a double, as for
  \<^verbatim>\<open>"3"\<close> and \<^verbatim>\<open>"2.5"\<close>. It is not \<^verbatim>\<open>+s\<close> elsewhere: exponent, hexadecimal, octal and binary
  literals and \<^verbatim>\<open>"Infinity"\<close> are mapped to \<^verbatim>\<open>NaN\<close> here, and a decimal that is not a double
  keeps its exact value instead of being rounded. It is used to run the form on the two
  entries above only; the general statement about the form holds for every conversion.
\<close>

definition isDigit :: "char \<Rightarrow> bool" where
  "isDigit c = (48 \<le> (of_char c :: nat) \<and> (of_char c :: nat) \<le> 57)"

definition digitsValue :: "string \<Rightarrow> nat" where
  "digitsValue s = foldl (\<lambda>a c. 10 * a + ((of_char c :: nat) - 48)) 0 s"

definition decimalToNumber :: "string \<Rightarrow> number" where
  "decimalToNumber s =
     (let t = trim s in
      if t = [] then Finite 0
      else
        let neg = (hd t = CHR ''-'');
            u = (if hd t = CHR ''-'' \<or> hd t = CHR ''+'' then tl t else t);
            ip = takeWhile isDigit u;
            rest = dropWhile isDigit u;
            fp = (if rest = [] then [] else tl rest);
            ok = (rest = [] \<or> (hd rest = CHR ''.'' \<and> list_all isDigit fp))
        in if ok \<and> (ip \<noteq> [] \<or> fp \<noteq> [])
           then Finite ((if neg then - 1 else 1) *
                  (of_nat (digitsValue ip) + of_nat (digitsValue fp) / 10 ^ length fp))
           else NaN)"

section \<open>Sample data\<close>

text \<open>
  Projects and registries on which the theorems below are run. \<open>twin\<close> carries the id of
  \<open>cli\<close>: the state \<open>clash\<close> is what two equal draws of \<^verbatim>\<open>Math.random\<close> followed by a move
  leave behind.
\<close>

definition cli :: Project where
  "cli = built (''0.11'', ''Build CLI'', ''Write a tool'', Finite 3)"

definition docs :: Project where
  "docs = built (''0.42'', ''Write docs'', ''Describe the tool'', Finite 2)"

definition twin :: Project where
  "twin = built (''0.11'', ''Ship it'', ''Release the tool'', Finite 2)"

definition board :: "(nat \<times> Project list) list ProjectState" where
  "board = \<lparr>projects = [cli, docs], listeners = [recorder 0, recorder 1]\<rparr>"

definition clash :: "(nat \<times> Project list) list ProjectState" where
  "clash = \<lparr>projects = [cli\<lparr>status := Finished\<rparr>, twin], listeners = [recorder 0]\<rparr>"

section \<open>Auxiliary facts\<close>

lemma fold_recorders:
  "fold (\<lambda>l. l ps) (map recorder names) trace = trace @ map (\<lambda>i. (i, ps)) names"
  by (induction names arbitrary: trace) (simp_all add: recorder_def)

lemma updateListeners_recorders:
  "listeners st = map recorder names \<Longrightarrow>
   updateListeners st trace = trace @ map (\<lambda>i. (i, projects st)) names"
  by (simp add: updateListeners_def fold_recorders)

lemma find_append_first:
  "(\<forall>q\<in>set pre. \<not> P q) \<Longrightarrow> P p \<Longrightarrow> find P (pre @ p # post) = Some p"
  by (induction pre) simp_all

lemma findPos_append_first:
  "(\<forall>q\<in>set pre. \<not> P q) \<Longrightarrow> P p \<Longrightarrow> findPos P (pre @ p # post) = length pre"
  by (induction pre) (simp_all add: findPos_def)

lemma find_Some_pos:
  "find P xs = Some p \<Longrightarrow> findPos P xs < length xs \<and> xs ! findPos P xs = p \<and> P p"
  by (induction xs) (simp_all add: findPos_def split: if_splits)

lemma find_Some_split:
  assumes "find P xs = Some p"
  shows "xs = take (findPos P xs) xs @ p # drop (Suc (findPos P xs)) xs"
proof -
  from assms have lt: "findPos P xs < length xs" and nth: "xs ! findPos P xs = p"
    by (simp_all add: find_Some_pos)
  show ?thesis
    by (rule id_take_nth_drop [OF lt, unfolded nth])
qed

lemma find_None_all: "find P xs = None \<longleftrightarrow> (\<forall>q\<in>set xs. \<not> P q)"
  by (induction xs) simp_all

lemma moveProject_first:
  assumes "projects st = pre @ p # post" and "\<forall>q\<in>set pre. id_prj q \<noteq> i" and "id_prj p = i"
  shows "moveProject i s (st, w) =
          (if status p \<noteq> s
           then (st\<lparr>projects := pre @ p\<lparr>status := s\<rparr> # post\<rparr>,
                 updateListeners (st\<lparr>projects := pre @ p\<lparr>status := s\<rparr> # post\<rparr>) w)
           else (st, w))"
proof -
  have f: "find (\<lambda>prj. id_prj prj = i) (projects st) = Some p"
    using assms by (simp add: find_append_first)
  have k: "findPos (\<lambda>prj. id_prj prj = i) (projects st) = length pre"
    using assms by (simp add: findPos_append_first)
  show ?thesis
    by (simp only: moveProject_def prod.case f k option.case Let_def) (simp add: assms(1))
qed

lemma moveProject_absent:
  assumes "\<forall>q\<in>set (projects st). id_prj q \<noteq> i"
  shows "moveProject i s (st, w) = (st, w)"
proof -
  have h: "find (\<lambda>prj. id_prj prj = i) (projects st) = None"
    using assms by (simp add: find_None_all)
  show ?thesis by (simp only: moveProject_def prod.case h option.case)
qed

lemma moveProject_same_status:
  assumes "find (\<lambda>prj. id_prj prj = i) (projects st) = Some p" and "status p = s"
  shows "moveProject i s (st, w) = (st, w)"
  by (simp only: moveProject_def prod.case assms option.case) simp

lemma moveProject_found:
  assumes "find (\<lambda>prj. id_prj prj = i) (projects st) = Some p" and "status p \<noteq> s"
  shows "moveProject i s (st, w) =
          (st\<lparr>projects := (projects st)[findPos (\<lambda>prj. id_prj prj = i) (projects st) := p\<lparr>status := s\<rparr>]\<rparr>,
           updateListeners
             (st\<lparr>projects := (projects st)[findPos (\<lambda>prj. id_prj prj = i) (projects st) := p\<lparr>status := s\<rparr>]\<rparr>) w)"
  by (simp only: moveProject_def prod.case assms option.case Let_def) simp

lemma relevant_showing: "relevant (showing s) pr = (status pr = s)"
  by (cases s; cases "status pr"; simp add: relevant_def)

lemma addProject_unfold:
  "addProject rnd t d n (st, w) =
     (st\<lparr>projects := projects st @ [built (rnd, t, d, n)]\<rparr>,
      updateListeners (st\<lparr>projects := projects st @ [built (rnd, t, d, n)]\<rparr>) w)"
  by (simp add: addProject_def Let_def)

lemma moveProject_cases:
  "moveProject i s (st, w) = (st, w)
   \<or> (\<exists>p. find (\<lambda>prj. id_prj prj = i) (projects st) = Some p \<and> status p \<noteq> s)"
proof (cases "find (\<lambda>prj. id_prj prj = i) (projects st)")
  case None
  then show ?thesis by (simp only: moveProject_def prod.case option.case) simp
next
  case (Some p)
  then show ?thesis
    by (cases "status p = s") (simp_all add: moveProject_same_status)
qed

lemma map_update_same: "f y = f (xs ! k) \<Longrightarrow> map f (xs[k := y]) = map f xs"
  by (induction xs arbitrary: k) (simp_all split: nat.split)

lemma moveProject_listeners: "listeners (fst (moveProject i s (st, w))) = listeners st"
  using moveProject_cases [of i s st w] by (auto simp add: moveProject_found)

lemma moveProject_ids:
  "map id_prj (projects (fst (moveProject i s (st, w)))) = map id_prj (projects st)"
proof -
  have "map id_prj ((projects st)[findPos (\<lambda>prj. id_prj prj = i) (projects st) := p\<lparr>status := s\<rparr>])
          = map id_prj (projects st)"
    if "find (\<lambda>prj. id_prj prj = i) (projects st) = Some p" for p
  proof -
    from that have "projects st ! findPos (\<lambda>prj. id_prj prj = i) (projects st) = p"
      by (simp add: find_Some_pos)
    then show ?thesis
      by (intro map_update_same) simp
  qed
  then show ?thesis
    using moveProject_cases [of i s st w] by (auto simp add: moveProject_found)
qed

lemma call_listeners: "listeners (fst (call c (st, w))) = listeners st"
  by (cases c) (simp_all add: addProject_unfold moveProject_listeners)

lemma call_ids:
  "map id_prj (projects (fst (call c (st, w)))) = map id_prj (projects st) @ drawn [c]"
  by (cases c) (simp_all add: addProject_unfold moveProject_ids)

lemma run_listeners: "listeners (fst (run calls (st, w))) = listeners st"
proof (induction calls arbitrary: st w)
  case Nil
  then show ?case by (simp add: run_def)
next
  case (Cons c calls)
  obtain st1 w1 where s1: "call c (st, w) = (st1, w1)" by (cases "call c (st, w)")
  have "listeners st1 = listeners st" using call_listeners [of c st w] s1 by simp
  with Cons [of st1 w1] s1 show ?case by (simp add: run_def)
qed

lemma drawn_Cons: "drawn (c # cs) = drawn [c] @ drawn cs"
  by (cases c) simp_all

lemma run_ids:
  "map id_prj (projects (fst (run calls (st, w)))) = map id_prj (projects st) @ drawn calls"
proof (induction calls arbitrary: st w)
  case Nil
  then show ?case by (simp add: run_def)
next
  case (Cons c calls)
  obtain st1 w1 where s1: "call c (st, w) = (st1, w1)" by (cases "call c (st, w)")
  have "map id_prj (projects st1) = map id_prj (projects st) @ drawn [c]"
    using call_ids [of c st w] s1 by simp
  with Cons [of st1 w1] s1 show ?case
    by (simp add: run_def drawn_Cons [of c calls])
qed

lemma addAll_projects:
  "projects (fst (addAll args (st, w))) = projects st @ map built args
   \<and> listeners (fst (addAll args (st, w))) = listeners st"
proof (induction args arbitrary: st w)
  case Nil
  then show ?case by (simp add: addAll_def)
next
  case (Cons a args)
  obtain rnd t d n where a: "a = (rnd, t, d, n)" by (cases a)
  let ?st1 = "st\<lparr>projects := projects st @ [built a]\<rparr>"
  have "addAll (a # args) (st, w) = addAll args (?st1, updateListeners ?st1 w)"
    by (simp add: addAll_def a addProject_unfold)
  with Cons [of ?st1 "updateListeners ?st1 w"] show ?case by simp
qed

lemma views_updated:
  assumes "listeners st = [listListener active, listListener finished]"
  shows "updateListeners st v = (\<lambda>ty. relevantProjects ty (projects st))"
proof
  fix ty
  show "updateListeners st v ty = relevantProjects ty (projects st)"
    by (cases ty) (simp_all add: updateListeners_def assms listListener_def)
qed

lemma addAll_views:
  assumes "listeners st = [listListener active, listListener finished]"
    and "v = (\<lambda>ty. relevantProjects ty (projects st))"
  shows "snd (addAll args (st, v)) = (\<lambda>ty. relevantProjects ty (projects (fst (addAll args (st, v)))))"
  using assms
proof (induction args arbitrary: st v)
  case Nil
  then show ?case by (simp add: addAll_def)
next
  case (Cons a args)
  obtain rnd t d n where a: "a = (rnd, t, d, n)" by (cases a)
  let ?st1 = "st\<lparr>projects := projects st @ [built a]\<rparr>"
  have step: "addAll (a # args) (st, v) = addAll args (?st1, updateListeners ?st1 v)"
    by (simp add: addAll_def a addProject_unfold)
  have l1: "listeners ?st1 = [listListener active, listListener finished]"
    using Cons.prems(1) by simp
  have v1: "updateListeners ?st1 v = (\<lambda>ty. relevantProjects ty (projects ?st1))"
    using l1 by (rule views_updated)
  show ?case
    unfolding step using Cons.IH [OF l1 v1] .
qed

lemma relevant_built: "relevantProjects active (map built args) = map built args
   \<and> relevantProjects finished (map built args) = []"
  by (induction args) (auto simp add: relevantProjects_def relevant_def)

lemma ids_built: "map (id_prj \<circ> built) args = map fst args"
  by (induction args) auto

lemma trim_Nil: "trim [] = []"
  by (simp add: trim_def)

lemma num_bounds: "num_le (Finite a) n \<and> num_le n (Finite b) \<longleftrightarrow> (\<exists>q. n = Finite q \<and> a \<le> q \<and> q \<le> b)"
  by (cases n) simp_all

lemma gather_half:
  "gatherUserInput decimalToNumber
      \<lparr>titleInputElem = ''Build CLI'', descriptionElem = ''Write a tool'', peopleInputElem = ''2.5''\<rparr>
    = Inr (''Build CLI'', ''Write a tool'', Finite (5 / 2))"
  by code_simp

lemmas ex_defs = board_def clash_def cli_def docs_def twin_def

section \<open>Specified properties\<close>

text \<open>
  C1. After any sequence of \<^verbatim>\<open>addProject\<close> calls on the freshly started application (no
  \<^verbatim>\<open>moveProject\<close>), the registry holds, and the Active list shows, exactly one project per
  call, in call order, each with the title, description and people count of its call, status
  Active and the id drawn by its call; the Finished list is empty. The ids shown are pairwise
  distinct when the strings drawn from \<^verbatim>\<open>Math.random\<close> are.
\<close>

theorem active_view_after_adds:
  "projects (fst (addAll args startup)) = map built args
   \<and> snd (addAll args startup) active = map built args
   \<and> length (snd (addAll args startup) active) = length args
   \<and> snd (addAll args startup) finished = []
   \<and> (distinct (map fst args) \<longrightarrow> distinct (map id_prj (snd (addAll args startup) active)))"
proof -
  let ?st0 = "addListener (listListener finished) (addListener (listListener active) getInstance)"
  have s0: "startup = (?st0, \<lambda>ty. [])" by (simp add: startup_def)
  have l0: "listeners ?st0 = [listListener active, listListener finished]"
    by (simp add: addListener_def getInstance_def)
  have p0: "projects ?st0 = []" by (simp add: addListener_def getInstance_def)
  have v0: "(\<lambda>ty. []) = (\<lambda>ty. relevantProjects ty (projects ?st0))"
    by (simp add: p0 relevantProjects_def)
  have prj: "projects (fst (addAll args startup)) = map built args"
    unfolding s0 by (simp add: addAll_projects p0)
  have vw: "snd (addAll args startup) = (\<lambda>ty. relevantProjects ty (map built args))"
    using addAll_views [OF l0 v0, of args] prj unfolding s0 by simp
  show ?thesis
    by (simp add: prj vw relevant_built ids_built)
qed

text \<open>
  Two calls that draw the same string: the Active list then shows two projects with one id.
\<close>

theorem active_view_counterexample:
  "\<not> distinct (map id_prj (snd (addAll
       [(''0.5'', ''Build CLI'', ''Write a tool'', Finite 3),
        (''0.5'', ''Ship it'', ''Release the tool'', Finite 2)] startup) active))"
  by (simp add: addAll_def addProject_unfold startup_def addListener_def getInstance_def
        updateListeners_def listListener_def relevantProjects_def relevant_def)

theorem active_view_after_adds_witness:
  "snd (addAll [(''0.11'', ''Build CLI'', ''Write a tool'', Finite 3),
                (''0.42'', ''Write docs'', ''Describe the tool'', Finite 2)] startup) active = [cli, docs]
   \<and> snd (addAll [(''0.11'', ''Build CLI'', ''Write a tool'', Finite 3),
                (''0.42'', ''Write docs'', ''Describe the tool'', Finite 2)] startup) finished = []
   \<and> distinct (map id_prj (snd (addAll [(''0.11'', ''Build CLI'', ''Write a tool'', Finite 3),
                (''0.42'', ''Write docs'', ''Describe the tool'', Finite 2)] startup) active))"
  using active_view_after_adds [of "[(''0.11'', ''Build CLI'', ''Write a tool'', Finite 3),
                (''0.42'', ''Write docs'', ''Describe the tool'', Finite 2)]"]
  by (simp add: cli_def docs_def)

text \<open>
  C2. When the first project with id \<open>i\<close> (the one \<^verbatim>\<open>find\<close> returns, the only one when ids are
  unique) has a status other than \<open>s\<close>, \<^verbatim>\<open>moveProject(i, s)\<close> sets the status of that project to
  \<open>s\<close> where it sits, and runs one notification round: each subscriber records one call, in
  subscription order, with the new sequence as snapshot. In that snapshot the project is in
  the filtered view of \<open>s\<close>, between the projects that were there, and not in the filtered
  view of its previous status.
\<close>

theorem moveProject_notifies_and_moves:
  assumes "find (\<lambda>prj. id_prj prj = i) (projects st) = Some p" and "status p \<noteq> s"
    and "listeners st = map recorder names"
  shows "let k = findPos (\<lambda>prj. id_prj prj = i) (projects st);
             pre = take k (projects st); post = drop (Suc k) (projects st);
             st' = fst (moveProject i s (st, trace))
         in projects st = pre @ p # post
            \<and> projects st' = pre @ p\<lparr>status := s\<rparr> # post
            \<and> snd (moveProject i s (st, trace)) = trace @ map (\<lambda>n. (n, projects st')) names
            \<and> relevantProjects (showing s) (projects st') =
                relevantProjects (showing s) pre @ p\<lparr>status := s\<rparr> # relevantProjects (showing s) post
            \<and> relevantProjects (showing (status p)) (projects st') =
                relevantProjects (showing (status p)) pre @ relevantProjects (showing (status p)) post"
proof -
  let ?k = "findPos (\<lambda>prj. id_prj prj = i) (projects st)"
  let ?pre = "take ?k (projects st)" and ?post = "drop (Suc ?k) (projects st)"
  let ?st' = "st\<lparr>projects := ?pre @ p\<lparr>status := s\<rparr> # ?post\<rparr>"
  from assms(1) have lt: "?k < length (projects st)"
    by (simp add: find_Some_pos)
  have split: "projects st = ?pre @ p # ?post"
    using assms(1) by (rule find_Some_split)
  have upd: "(projects st)[?k := p\<lparr>status := s\<rparr>] = ?pre @ p\<lparr>status := s\<rparr> # ?post"
    using lt by (simp add: upd_conv_take_nth_drop)
  have mv: "moveProject i s (st, trace) = (?st', updateListeners ?st' trace)"
    by (simp only: moveProject_found [OF assms(1,2)] upd)
  have tr: "updateListeners ?st' trace = trace @ map (\<lambda>n. (n, projects ?st')) names"
    by (rule updateListeners_recorders) (simp add: assms(3))
  have new: "relevantProjects (showing s) (?pre @ p\<lparr>status := s\<rparr> # ?post) =
                relevantProjects (showing s) ?pre @ p\<lparr>status := s\<rparr> # relevantProjects (showing s) ?post"
    by (simp add: relevantProjects_def relevant_showing)
  have old: "relevantProjects (showing (status p)) (?pre @ p\<lparr>status := s\<rparr> # ?post) =
                relevantProjects (showing (status p)) ?pre @ relevantProjects (showing (status p)) ?post"
    using assms(2) by (simp add: relevantProjects_def relevant_showing)
  show ?thesis
    unfolding Let_def mv fst_conv snd_conv
    using split tr new old by simp
qed

text \<open>
  A registry reached by two \<^verbatim>\<open>addProject\<close> calls that draw the same string and one move: the
  second project has the id and is Active, yet \<^verbatim>\<open>moveProject\<close> to Finished looks at the first
  one only, changes nothing and notifies nobody.
\<close>

theorem moveProject_duplicate_counterexample:
  "fst (run [AddProject ''0.11'' ''Build CLI'' ''Write a tool'' (Finite 3),
             AddProject ''0.11'' ''Ship it'' ''Release the tool'' (Finite 2),
             MoveProject ''0.11'' Finished] (addListener (recorder 0) getInstance, [])) = clash
   \<and> projects clash ! 1 = twin \<and> id_prj twin = ''0.11'' \<and> status twin = Active
   \<and> moveProject ''0.11'' Finished (clash, []) = (clash, [])"
  by (simp add: run_def addProject_def moveProject_def findPos_def Let_def addListener_def
        getInstance_def ex_defs)

theorem moveProject_notifies_and_moves_witness:
  "snd (moveProject ''0.42'' Finished (board, [])) =
     [(0, [cli, docs\<lparr>status := Finished\<rparr>]), (1, [cli, docs\<lparr>status := Finished\<rparr>])]
   \<and> relevantProjects finished (projects (fst (moveProject ''0.42'' Finished (board, []))))
       = [docs\<lparr>status := Finished\<rparr>]
   \<and> relevantProjects active (projects (fst (moveProject ''0.42'' Finished (board, [])))) = [cli]"
proof -
  have f: "find (\<lambda>prj. id_prj prj = ''0.42'') (projects board) = Some docs"
    by (simp add: ex_defs)
  have s: "status docs \<noteq> Finished" by (simp add: ex_defs)
  have l: "listeners board = map recorder [0, 1]" by (simp add: ex_defs)
  show ?thesis
    using moveProject_notifies_and_moves [OF f s l, of "[]"]
    by (simp add: Let_def findPos_def relevantProjects_def relevant_def ex_defs)
qed

text \<open>
  C3. \<^verbatim>\<open>moveProject(i, s)\<close> when no project has id \<open>i\<close>, or when the project with id \<open>i\<close> (the
  one \<^verbatim>\<open>find\<close> returns) already has status \<open>s\<close>: the registry and everything outside it are
  returned as they were, whatever the subscribers are. No subscriber has run, nothing is
  raised, and the two cases give the same result.
\<close>

theorem moveProject_silent_noop:
  "(\<forall>q\<in>set (projects st). id_prj q \<noteq> i)
     \<or> (\<exists>p. find (\<lambda>prj. id_prj prj = i) (projects st) = Some p \<and> status p = s)
   \<Longrightarrow> moveProject i s (st, w) = (st, w)"
proof (elim disjE exE conjE)
  assume "\<forall>q\<in>set (projects st). id_prj q \<noteq> i"
  then show ?thesis by (rule moveProject_absent)
next
  fix p
  assume "find (\<lambda>prj. id_prj prj = i) (projects st) = Some p" and "status p = s"
  then show ?thesis by (rule moveProject_same_status)
qed

theorem moveProject_silent_noop_witness:
  "moveProject ''0.99'' Finished (board, []) = (board, [])
   \<and> moveProject ''0.42'' Active (board, []) = (board, [])"
proof
  show "moveProject ''0.99'' Finished (board, []) = (board, [])"
    by (rule moveProject_silent_noop) (simp add: ex_defs)
  show "moveProject ''0.42'' Active (board, []) = (board, [])"
    by (rule moveProject_silent_noop) (simp add: ex_defs)
qed

text \<open>
  C4. Along any sequence of \<^verbatim>\<open>addProject\<close> and \<^verbatim>\<open>moveProject\<close> calls the ids of the sequence are
  the ids it had at the start followed by the strings drawn, in order: no call changes or
  removes an id. Hence the ids stay pairwise distinct as long as the strings drawn from
  \<^verbatim>\<open>Math.random\<close> are distinct from each other and from the ids already present.
\<close>

theorem ids_unique_for_distinct_draws:
  "map id_prj (projects (fst (run calls (st, w)))) = map id_prj (projects st) @ drawn calls
   \<and> (distinct (map id_prj (projects st) @ drawn calls)
        \<longrightarrow> distinct (map id_prj (projects (fst (run calls (st, w))))))"
  by (simp only: run_ids) simp

text \<open>Two calls that draw the same string leave two projects with one id.\<close>

theorem ids_unique_counterexample:
  "\<not> distinct (map id_prj (projects (fst (run
       [AddProject ''0.5'' ''Build CLI'' ''Write a tool'' (Finite 3),
        AddProject ''0.5'' ''Ship it'' ''Release the tool'' (Finite 2)] (getInstance, ())))))"
  by (simp add: run_def addProject_unfold getInstance_def)

theorem ids_unique_for_distinct_draws_witness:
  "map id_prj (projects (fst (run
       [AddProject ''0.11'' ''Build CLI'' ''Write a tool'' (Finite 3),
        AddProject ''0.42'' ''Write docs'' ''Describe the tool'' (Finite 2),
        MoveProject ''0.11'' Finished] (getInstance, ())))) = [''0.11'', ''0.42'']
   \<and> distinct (map id_prj (projects (fst (run
       [AddProject ''0.11'' ''Build CLI'' ''Write a tool'' (Finite 3),
        AddProject ''0.42'' ''Write docs'' ''Describe the tool'' (Finite 2),
        MoveProject ''0.11'' Finished] (getInstance, ())))))"
  using ids_unique_for_distinct_draws [of
      "[AddProject ''0.11'' ''Build CLI'' ''Write a tool'' (Finite 3),
        AddProject ''0.42'' ''Write docs'' ''Describe the tool'' (Finite 2),
        MoveProject ''0.11'' Finished]" getInstance "()"]
  by (simp add: getInstance_def)

text \<open>
  C5. A \<^verbatim>\<open>moveProject(i, s)\<close> that applies (the project found has another status) keeps the
  length of the sequence, leaves every other position as it was, and at the position of the
  project found leaves a project with the same id, title, description and people count and
  the status \<open>s\<close>; the subscribers are untouched.
\<close>

theorem moveProject_changes_status_only:
  assumes "find (\<lambda>prj. id_prj prj = i) (projects st) = Some p" and "status p \<noteq> s"
  shows "let k = findPos (\<lambda>prj. id_prj prj = i) (projects st);
             st' = fst (moveProject i s (st, w))
         in k < length (projects st) \<and> projects st ! k = p
            \<and> length (projects st') = length (projects st)
            \<and> projects st' ! k = \<lparr>id_prj = id_prj p, title = title p, description = description p,
                                   people = people p, status = s\<rparr>
            \<and> (\<forall>j < length (projects st). j \<noteq> k \<longrightarrow> projects st' ! j = projects st ! j)
            \<and> listeners st' = listeners st"
proof -
  let ?k = "findPos (\<lambda>prj. id_prj prj = i) (projects st)"
  from assms(1) have lt: "?k < length (projects st)" and nth: "projects st ! ?k = p"
    by (simp_all add: find_Some_pos)
  have upd: "p\<lparr>status := s\<rparr> = \<lparr>id_prj = id_prj p, title = title p, description = description p,
                                   people = people p, status = s\<rparr>"
    by (cases p) simp
  show ?thesis
    using lt nth by (simp add: moveProject_found [OF assms] Let_def upd)
qed

theorem moveProject_changes_status_only_witness:
  "findPos (\<lambda>prj. id_prj prj = ''0.42'') (projects board) = 1
   \<and> projects board ! 1 = docs
   \<and> length (projects (fst (moveProject ''0.42'' Finished (board, [])))) = 2
   \<and> projects (fst (moveProject ''0.42'' Finished (board, []))) ! 1 =
       \<lparr>id_prj = ''0.42'', title = ''Write docs'', description = ''Describe the tool'',
        people = Finite 2, status = Finished\<rparr>"
proof -
  have f: "find (\<lambda>prj. id_prj prj = ''0.42'') (projects board) = Some docs"
    by (simp add: ex_defs)
  have s: "status docs \<noteq> Finished" by (simp add: ex_defs)
  have k: "findPos (\<lambda>prj. id_prj prj = ''0.42'') (projects board) = 1"
    by (simp add: ex_defs findPos_def)
  show ?thesis
    using moveProject_changes_status_only [OF f s, of "[]"]
    by (simp add: Let_def k) (simp add: ex_defs)
qed

text \<open>
  C6. \<^verbatim>\<open>addProject\<close> has no failing branch and tests none of its arguments: whatever the
  title, the description and the number of people (empty strings, zero, negative numbers,
  \<^verbatim>\<open>NaN\<close>), the project sequence after the call is the one before it followed by one new
  project that carries these arguments, the drawn id and the status Active; the subscribers
  are untouched.
\<close>

theorem addProject_appends_active:
  "projects (fst (addProject rnd t d n (st, w))) =
     projects st @ [\<lparr>id_prj = rnd, title = t, description = d, people = n, status = Active\<rparr>]
   \<and> listeners (fst (addProject rnd t d n (st, w))) = listeners st"
  by (simp add: addProject_def Let_def)

text \<open>
  C7. With subscribers that record their invocations, \<^verbatim>\<open>addProject\<close> returns with one new
  record per subscriber, in subscription order, each holding the whole project sequence with
  the new project at its end. So does \<^verbatim>\<open>moveProject\<close> whenever it applies, that is whenever the
  project it finds has another status than the one asked for: each record then holds the whole
  sequence with that project's status changed. When no project is found, or the one found has
  the status already, \<^verbatim>\<open>moveProject\<close> adds no record.
\<close>

theorem fan_out_once_in_order:
  assumes "listeners st = map recorder names"
  shows "snd (addProject rnd t d n (st, trace)) =
           trace @ map (\<lambda>c. (c, projects st @ [built (rnd, t, d, n)])) names
         \<and> projects (fst (addProject rnd t d n (st, trace))) = projects st @ [built (rnd, t, d, n)]
         \<and> (find (\<lambda>prj. id_prj prj = i) (projects st) = Some p \<and> status p \<noteq> s \<longrightarrow>
              projects (fst (moveProject i s (st, trace))) =
                (projects st)[findPos (\<lambda>prj. id_prj prj = i) (projects st) := p\<lparr>status := s\<rparr>]
              \<and> snd (moveProject i s (st, trace)) =
                trace @ map (\<lambda>c. (c, (projects st)[findPos (\<lambda>prj. id_prj prj = i) (projects st) :=
                                                     p\<lparr>status := s\<rparr>])) names)
         \<and> (find (\<lambda>prj. id_prj prj = i) (projects st) = None
              \<or> (\<exists>q. find (\<lambda>prj. id_prj prj = i) (projects st) = Some q \<and> status q = s) \<longrightarrow>
              moveProject i s (st, trace) = (st, trace))"
proof (intro conjI impI)
  let ?st' = "st\<lparr>projects := projects st @ [built (rnd, t, d, n)]\<rparr>"
  have a: "addProject rnd t d n (st, trace) = (?st', updateListeners ?st' trace)"
    by (rule addProject_unfold)
  have "updateListeners ?st' trace = trace @ map (\<lambda>c. (c, projects ?st')) names"
    by (rule updateListeners_recorders) (simp add: assms)
  with a show "snd (addProject rnd t d n (st, trace)) =
           trace @ map (\<lambda>c. (c, projects st @ [built (rnd, t, d, n)])) names"
    by simp
  from a show "projects (fst (addProject rnd t d n (st, trace))) = projects st @ [built (rnd, t, d, n)]"
    by simp
next
  assume h: "find (\<lambda>prj. id_prj prj = i) (projects st) = Some p \<and> status p \<noteq> s"
  let ?ps' = "(projects st)[findPos (\<lambda>prj. id_prj prj = i) (projects st) := p\<lparr>status := s\<rparr>]"
  let ?st' = "st\<lparr>projects := ?ps'\<rparr>"
  have mv: "moveProject i s (st, trace) = (?st', updateListeners ?st' trace)"
    using h by (intro moveProject_found) simp_all
  have tr: "updateListeners ?st' trace = trace @ map (\<lambda>c. (c, projects ?st')) names"
    by (rule updateListeners_recorders) (simp add: assms)
  from mv show "projects (fst (moveProject i s (st, trace))) = ?ps'" by simp
  from mv tr show "snd (moveProject i s (st, trace)) = trace @ map (\<lambda>c. (c, ?ps')) names" by simp
next
  assume "find (\<lambda>prj. id_prj prj = i) (projects st) = None
              \<or> (\<exists>q. find (\<lambda>prj. id_prj prj = i) (projects st) = Some q \<and> status q = s)"
  then show "moveProject i s (st, trace) = (st, trace)"
  proof (elim disjE exE conjE)
    assume "find (\<lambda>prj. id_prj prj = i) (projects st) = None"
    then show ?thesis by (simp only: moveProject_def prod.case option.case)
  next
    fix q
    assume "find (\<lambda>prj. id_prj prj = i) (projects st) = Some q" and "status q = s"
    then show ?thesis by (rule moveProject_same_status)
  qed
qed

theorem fan_out_once_in_order_witness:
  "snd (addProject ''0.77'' ''Ship it'' ''Release the tool'' (Finite 2) (board, [])) =
     [(0, [cli, docs, built (''0.77'', ''Ship it'', ''Release the tool'', Finite 2)]),
      (1, [cli, docs, built (''0.77'', ''Ship it'', ''Release the tool'', Finite 2)])]
   \<and> snd (moveProject ''0.11'' Finished (board, [])) =
     [(0, [cli\<lparr>status := Finished\<rparr>, docs]), (1, [cli\<lparr>status := Finished\<rparr>, docs])]
   \<and> projects (fst (moveProject ''0.11'' Finished (board, []))) = [cli\<lparr>status := Finished\<rparr>, docs]
   \<and> snd (moveProject ''0.11'' Active (board, [])) = []
   \<and> snd (moveProject ''0.99'' Finished (board, [])) = []"
proof -
  have l: "listeners board = map recorder [0, 1]" by (simp add: ex_defs)
  have f: "find (\<lambda>prj. id_prj prj = ''0.11'') (projects board) = Some cli \<and> status cli \<noteq> Finished"
    by (simp add: ex_defs)
  have k: "(projects board)[findPos (\<lambda>prj. id_prj prj = ''0.11'') (projects board) := cli\<lparr>status := Finished\<rparr>]
            = [cli\<lparr>status := Finished\<rparr>, docs]"
    by (simp add: ex_defs findPos_def)
  have g: "find (\<lambda>prj. id_prj prj = ''0.11'') (projects board) = None
            \<or> (\<exists>q. find (\<lambda>prj. id_prj prj = ''0.11'') (projects board) = Some q \<and> status q = Active)"
    by (simp add: ex_defs)
  have e: "find (\<lambda>prj. id_prj prj = ''0.99'') (projects board) = None
            \<or> (\<exists>q. find (\<lambda>prj. id_prj prj = ''0.99'') (projects board) = Some q \<and> status q = Finished)"
    by (simp add: ex_defs)
  note t = fan_out_once_in_order [OF l]
  have a: "snd (addProject ''0.77'' ''Ship it'' ''Release the tool'' (Finite 2) (board, [])) =
     [(0, [cli, docs, built (''0.77'', ''Ship it'', ''Release the tool'', Finite 2)]),
      (1, [cli, docs, built (''0.77'', ''Ship it'', ''Release the tool'', Finite 2)])]"
    using conjunct1 [OF t [of "''0.77''" "''Ship it''" "''Release the tool''" "Finite 2" "[]"]]
    by (simp add: board_def)
  have m: "projects (fst (moveProject ''0.11'' Finished (board, []))) = [cli\<lparr>status := Finished\<rparr>, docs]
        \<and> snd (moveProject ''0.11'' Finished (board, [])) =
            [(0, [cli\<lparr>status := Finished\<rparr>, docs]), (1, [cli\<lparr>status := Finished\<rparr>, docs])]"
    using mp [OF conjunct1 [OF conjunct2 [OF conjunct2 [OF t [where i = "''0.11''" and p = cli and s = Finished and trace = "[]"]]]] f]
    by (simp only: k) simp
  have n1: "moveProject ''0.11'' Active (board, []) = (board, [])"
    using mp [OF conjunct2 [OF conjunct2 [OF conjunct2 [OF t [where i = "''0.11''" and s = Active and trace = "[]"]]]] g] .
  have n2: "moveProject ''0.99'' Finished (board, []) = (board, [])"
    using mp [OF conjunct2 [OF conjunct2 [OF conjunct2 [OF t [where i = "''0.99''" and s = Finished and trace = "[]"]]]] e] .
  from a m n1 n2 show ?thesis by simp
qed

text \<open>
  C8. After the same listener \<open>l\<close> has been subscribed twice, and after any further calls, the
  subscriber list ends with \<open>l\<close> twice, and a notification runs the earlier subscribers and
  then \<open>l\<close> two times on the same snapshot.
\<close>

theorem subscribed_twice_invoked_twice:
  "let st2 = fst (run calls (addListener l (addListener l st), w))
   in listeners st2 = listeners st @ [l, l]
      \<and> updateListeners st2 w' =
          l (projects st2) (l (projects st2) (fold (\<lambda>f. f (projects st2)) (listeners st) w'))"
  by (simp add: Let_def run_listeners updateListeners_def addListener_def)

theorem subscribed_twice_invoked_twice_witness:
  "updateListeners (addListener (recorder 7) (addListener (recorder 7) board)) [] =
     [(0, [cli, docs]), (1, [cli, docs]), (7, [cli, docs]), (7, [cli, docs])]"
  using subscribed_twice_invoked_twice [of "[]" "recorder 7" board "[]" "[]"]
  by (simp add: Let_def run_def) (simp add: board_def recorder_def addListener_def)

text \<open>
  C9. A form submission either fails validation, and then shows the notice and leaves the
  registry and the form as they were, or passes it, and then calls \<^verbatim>\<open>addProject\<close> once, with
  the trimmed title, which is not empty, the trimmed description, which has at least five
  characters, and the converted people count, which is a finite number between 1 and 5.
\<close>

theorem submit_validated:
  "(case gatherUserInput toNumber (form pg) of
      Inl notice \<Rightarrow>
        notice = ''Invalid input, please try again!''
        \<and> submit toNumber rnd pg = pg\<lparr>alerts := alerts pg @ [notice]\<rparr>
        \<and> registry (submit toNumber rnd pg) = registry pg
    | Inr (t, d, n) \<Rightarrow>
        submit toNumber rnd pg =
          pg\<lparr>registry := addProject rnd t d n (registry pg), form := clearInput (form pg)\<rparr>
        \<and> t = trim (titleInputElem (form pg)) \<and> t \<noteq> []
        \<and> d = trim (descriptionElem (form pg)) \<and> 5 \<le> length d
        \<and> n = toNumber (trim (peopleInputElem (form pg)))
        \<and> (\<exists>q. n = Finite q \<and> 1 \<le> q \<and> q \<le> 5))"
proof (cases "gatherUserInput toNumber (form pg)")
  case (Inl notice)
  then have "notice = ''Invalid input, please try again!''"
    by (simp add: gatherUserInput_def Let_def split: if_splits)
  with Inl show ?thesis by (simp add: submit_def)
next
  case (Inr x)
  obtain t d n where x: "x = (t, d, n)" by (cases x)
  let ?t = "trim (titleInputElem (form pg))" and ?d = "trim (descriptionElem (form pg))"
  let ?n = "toNumber (trim (peopleInputElem (form pg)))"
  from Inr x have eq: "t = ?t" "d = ?d" "n = ?n"
    by (simp_all add: gatherUserInput_def Let_def split: if_splits)
  from Inr x have v1: "validate \<lparr>value_v = StringValue ?t, required = Some True,
             minLength = None, maxLength = None, min_v = None, max_v = None\<rparr>"
    and v2: "validate \<lparr>value_v = StringValue ?d, required = Some True,
             minLength = Some (Finite 5), maxLength = None, min_v = None, max_v = None\<rparr>"
    and v3: "validate \<lparr>value_v = NumberValue ?n, required = Some True,
             minLength = None, maxLength = None, min_v = Some (Finite 1), max_v = Some (Finite 5)\<rparr>"
    by (simp_all add: gatherUserInput_def Let_def split: if_splits)
  from v1 have "trim ?t \<noteq> []" by (simp add: validate_def)
  then have t: "?t \<noteq> []" by (auto simp add: trim_Nil)
  from v2 have d: "5 \<le> length ?d" by (simp add: validate_def lengthNumber_def)
  from v3 have "num_le (Finite 1) ?n \<and> num_le ?n (Finite 5)" by (simp add: validate_def)
  then have n: "\<exists>q. ?n = Finite q \<and> 1 \<le> q \<and> q \<le> 5" by (simp only: num_bounds)
  show ?thesis
    using Inr x eq t d n by (simp add: submit_def)
qed

text \<open>
  The people count need not be an integer: the entry \<^verbatim>\<open>2.5\<close> passes validation and reaches
  \<^verbatim>\<open>addProject\<close>.
\<close>

theorem submit_integer_counterexample:
  "gatherUserInput decimalToNumber
      \<lparr>titleInputElem = ''Build CLI'', descriptionElem = ''Write a tool'', peopleInputElem = ''2.5''\<rparr>
    = Inr (''Build CLI'', ''Write a tool'', Finite (5 / 2))
   \<and> \<not> isInteger (Finite (5 / 2))
   \<and> registry (submit decimalToNumber ''0.5''
        \<lparr>form = \<lparr>titleInputElem = ''Build CLI'', descriptionElem = ''Write a tool'',
                   peopleInputElem = ''2.5''\<rparr>,
         registry = (getInstance, ()), alerts = []\<rparr>)
     = addProject ''0.5'' ''Build CLI'' ''Write a tool'' (Finite (5 / 2)) (getInstance, ())"
proof -
  have "\<not> isInteger (Finite (5 / 2))" by code_simp
  then show ?thesis by (simp add: submit_def gather_half)
qed

theorem submit_validated_witness:
  "submit decimalToNumber ''0.5''
        \<lparr>form = \<lparr>titleInputElem = ''  Build CLI '', descriptionElem = ''Write a tool'',
                   peopleInputElem = ''3''\<rparr>,
         registry = (getInstance, ()), alerts = []\<rparr>
     = \<lparr>form = \<lparr>titleInputElem = [], descriptionElem = [], peopleInputElem = []\<rparr>,
        registry = addProject ''0.5'' ''Build CLI'' ''Write a tool'' (Finite 3) (getInstance, ()),
        alerts = []\<rparr>
   \<and> submit decimalToNumber ''0.5''
        \<lparr>form = \<lparr>titleInputElem = ''Build CLI'', descriptionElem = ''tool'',
                   peopleInputElem = ''3''\<rparr>,
         registry = (getInstance, ()), alerts = []\<rparr>
     = \<lparr>form = \<lparr>titleInputElem = ''Build CLI'', descriptionElem = ''tool'',
                   peopleInputElem = ''3''\<rparr>,
        registry = (getInstance, ()), alerts = [''Invalid input, please try again!'']\<rparr>"
proof -
  let ?ok = "\<lparr>titleInputElem = ''  Build CLI '', descriptionElem = ''Write a tool'',
                   peopleInputElem = ''3''\<rparr>"
  let ?bad = "\<lparr>titleInputElem = ''Build CLI'', descriptionElem = ''tool'',
                   peopleInputElem = ''3''\<rparr>"
  have g1: "gatherUserInput decimalToNumber ?ok = Inr (''Build CLI'', ''Write a tool'', Finite 3)"
    by code_simp
  have g2: "gatherUserInput decimalToNumber ?bad = Inl ''Invalid input, please try again!''"
    by code_simp
  have a: "submit decimalToNumber ''0.5'' \<lparr>form = ?ok, registry = (getInstance, ()), alerts = []\<rparr>
     = \<lparr>form = \<lparr>titleInputElem = [], descriptionElem = [], peopleInputElem = []\<rparr>,
        registry = addProject ''0.5'' ''Build CLI'' ''Write a tool'' (Finite 3) (getInstance, ()),
        alerts = []\<rparr>"
    using submit_validated [where toNumber = decimalToNumber and rnd = "''0.5''"
        and pg = "\<lparr>form = ?ok, registry = (getInstance, ()), alerts = []\<rparr>"]
    by (simp add: g1 clearInput_def)
  have b: "submit decimalToNumber ''0.5'' \<lparr>form = ?bad, registry = (getInstance, ()), alerts = []\<rparr>
     = \<lparr>form = ?bad, registry = (getInstance, ()), alerts = [''Invalid input, please try again!'']\<rparr>"
    using submit_validated [where toNumber = decimalToNumber and rnd = "''0.5''"
        and pg = "\<lparr>form = ?bad, registry = (getInstance, ()), alerts = []\<rparr>"]
    by (simp add: g2)
  from a b show ?thesis by (rule conjI)
qed

text \<open>
  C10. \<^verbatim>\<open>moveProject(i, s)\<close> touches the first project with id \<open>i\<close> only: the projects before
  it and all the projects after it, those with the same id included, are left as they are
  (and so is the first one when its status is \<open>s\<close> already); without a project with id \<open>i\<close>
  the sequence is unchanged.
\<close>

theorem moveProject_first_match_only:
  "(projects st = pre @ p # post \<and> (\<forall>q\<in>set pre. id_prj q \<noteq> i) \<and> id_prj p = i
      \<longrightarrow> projects (fst (moveProject i s (st, w))) = pre @ p\<lparr>status := s\<rparr> # post)
   \<and> ((\<forall>q\<in>set (projects st). id_prj q \<noteq> i)
      \<longrightarrow> projects (fst (moveProject i s (st, w))) = projects st)"
proof (intro conjI impI)
  assume a: "projects st = pre @ p # post \<and> (\<forall>q\<in>set pre. id_prj q \<noteq> i) \<and> id_prj p = i"
  then have "moveProject i s (st, w) =
          (if status p \<noteq> s
           then (st\<lparr>projects := pre @ p\<lparr>status := s\<rparr> # post\<rparr>,
                 updateListeners (st\<lparr>projects := pre @ p\<lparr>status := s\<rparr> # post\<rparr>) w)
           else (st, w))"
    by (intro moveProject_first) simp_all
  moreover have "status p = s \<Longrightarrow> p\<lparr>status := s\<rparr> = p" by auto
  ultimately show "projects (fst (moveProject i s (st, w))) = pre @ p\<lparr>status := s\<rparr> # post"
    using a by (cases "status p = s") simp_all
next
  assume "\<forall>q\<in>set (projects st). id_prj q \<noteq> i"
  then show "projects (fst (moveProject i s (st, w))) = projects st"
    by (simp add: moveProject_absent)
qed

theorem moveProject_first_match_only_witness:
  "projects (fst (moveProject ''0.11'' Finished (\<lparr>projects = [docs, cli, twin], listeners = []\<rparr>, ())))
     = [docs, cli\<lparr>status := Finished\<rparr>, twin]
   \<and> id_prj twin = ''0.11'' \<and> status twin = Active"
proof -
  have "projects \<lparr>projects = [docs, cli, twin], listeners = []\<rparr> = [docs] @ cli # [twin]
        \<and> (\<forall>q\<in>set [docs]. id_prj q \<noteq> ''0.11'') \<and> id_prj cli = ''0.11''"
    by (simp add: ex_defs)
  then have "projects (fst (moveProject ''0.11'' Finished (\<lparr>projects = [docs, cli, twin], listeners = []\<rparr>, ())))
     = [docs] @ cli\<lparr>status := Finished\<rparr> # [twin]"
    by (rule mp [OF conjunct1 [OF moveProject_first_match_only], rotated])
  then show ?thesis by (simp add: ex_defs)
qed

end
